theory Spec2Isabelle
  imports Main "HOL-Library.Word"
begin

section \<open>JavaScript values as the event handler sees them\<close>

text \<open>
  The stream delivers each update event as a parsed JSON document, typed \<open>any\<close> in
  \<open>App.tsx\<close>. A JavaScript string is a sequence of UTF-16 code units: \<open>length\<close> and
  \<open>substring\<close> count code units, so strings are lists of 16-bit words. Numbers are
  restricted to the integers (the safe integers of a double). An object is the
  list of its own entries, the first entry of a key being the one that counts; a
  missing property reads as \<open>undefined\<close>.
\<close>

type_synonym jsstr = "16 word list"

definition lit :: "string \<Rightarrow> jsstr" where
  "lit s = map of_char s"

datatype jsval =
    JUndefined
  | JNull
  | JBool bool
  | JNum int
  | JStr jsstr
  | JArr "jsval list"
  | JObj "(jsstr \<times> jsval) list"

datatype error = TypeError

type_synonym 'a result = "error + 'a"

definition bindE :: "'a result \<Rightarrow> ('a \<Rightarrow> 'b result) \<Rightarrow> 'b result" where
  "bindE m f = (case m of Inl e \<Rightarrow> Inl e | Inr v \<Rightarrow> f v)"

fun traverse :: "('a \<Rightarrow> 'b result) \<Rightarrow> 'a list \<Rightarrow> 'b list result" where
  "traverse f [] = Inr []"
| "traverse f (x # xs) =
     (case f x of Inl e \<Rightarrow> Inl e
      | Inr y \<Rightarrow> (case traverse f xs of Inl e \<Rightarrow> Inl e | Inr ys \<Rightarrow> Inr (y # ys)))"

text \<open>Truthiness: what \<open>if (v)\<close>, \<open>v || d\<close>, \<open>v ? a : b\<close> and \<open>Boolean(v)\<close> test.\<close>

fun truthy :: "jsval \<Rightarrow> bool" where
  "truthy JUndefined = False"
| "truthy JNull = False"
| "truthy (JBool b) = b"
| "truthy (JNum n) = (n \<noteq> 0)"
| "truthy (JStr s) = (s \<noteq> [])"
| "truthy (JArr xs) = True"
| "truthy (JObj kvs) = True"

definition nullish :: "jsval \<Rightarrow> bool" where
  "nullish v = (v = JUndefined \<or> v = JNull)"

text \<open>\<open>a || d\<close>\<close>

definition or_else :: "jsval \<Rightarrow> jsval \<Rightarrow> jsval" where
  "or_else a d = (if truthy a then a else d)"

text \<open>
  \<open>v.k\<close> for the data keys the handler reads and for \<open>length\<close>: reading a property of
  \<open>undefined\<close> or \<open>null\<close> throws a TypeError; a key an object does not own reads as
  \<open>undefined\<close>. (Inherited methods are not values of this model; the method calls
  the handler makes are modelled one by one below.)
\<close>

definition own :: "(jsstr \<times> jsval) list \<Rightarrow> jsstr \<Rightarrow> jsval" where
  "own kvs k = (case map_of kvs k of None \<Rightarrow> JUndefined | Some v \<Rightarrow> v)"

fun get_prop :: "jsval \<Rightarrow> jsstr \<Rightarrow> jsval result" where
  "get_prop JUndefined k = Inl TypeError"
| "get_prop JNull k = Inl TypeError"
| "get_prop (JBool b) k = Inr JUndefined"
| "get_prop (JNum n) k = Inr JUndefined"
| "get_prop (JStr s) k = Inr (if k = lit ''length'' then JNum (int (length s)) else JUndefined)"
| "get_prop (JArr xs) k = Inr (if k = lit ''length'' then JNum (int (length xs)) else JUndefined)"
| "get_prop (JObj kvs) k = Inr (own kvs k)"

text \<open>\<open>v?.k\<close>\<close>

definition opt_get :: "jsval \<Rightarrow> jsstr \<Rightarrow> jsval result" where
  "opt_get v k = (if nullish v then Inr JUndefined else get_prop v k)"

text \<open>\<open>event.a.b\<close> and \<open>event.a?.b\<close>\<close>

definition path :: "jsval \<Rightarrow> jsstr \<Rightarrow> jsstr \<Rightarrow> jsval result" where
  "path event a b = bindE (get_prop event a) (\<lambda>p. get_prop p b)"

definition opt_path :: "jsval \<Rightarrow> jsstr \<Rightarrow> jsstr \<Rightarrow> jsval result" where
  "opt_path event a b = bindE (get_prop event a) (\<lambda>p. opt_get p b)"

text \<open>\<open>v?.[0]\<close>\<close>

fun opt_index0 :: "jsval \<Rightarrow> jsval" where
  "opt_index0 (JArr xs) = (case xs of [] \<Rightarrow> JUndefined | x # _ \<Rightarrow> x)"
| "opt_index0 (JStr s) = (case s of [] \<Rightarrow> JUndefined | c # _ \<Rightarrow> JStr [c])"
| "opt_index0 (JObj kvs) = own kvs (lit ''0'')"
| "opt_index0 v = JUndefined"

subsection \<open>Conversion to string\<close>

fun show_nat :: "nat \<Rightarrow> jsstr" where
  "show_nat n =
     (if n < 10 then [of_nat (48 + n)]
      else show_nat (n div 10) @ [of_nat (48 + n mod 10)])"

declare show_nat.simps [simp del]

definition show_int :: "int \<Rightarrow> jsstr" where
  "show_int i = (if i < 0 then lit ''-'' @ show_nat (nat (- i)) else show_nat (nat i))"

fun intercalate :: "jsstr \<Rightarrow> jsstr list \<Rightarrow> jsstr" where
  "intercalate sep [] = []"
| "intercalate sep [s] = s"
| "intercalate sep (s # t # ss) = s @ sep @ intercalate sep (t # ss)"

text \<open>
  \<open>ToString\<close>, as a template literal applies it. An array converts through
  \<open>Array.prototype.join\<close>, which renders \<open>undefined\<close> and \<open>null\<close> elements as the empty
  string; a plain object converts to \<open>[object Object]\<close>, unless the document gave it
  an own \<open>toString\<close> entry (never callable in parsed JSON), and then the conversion
  throws.
\<close>

fun to_string :: "jsval \<Rightarrow> jsstr result"
  and elem_strings :: "jsval list \<Rightarrow> jsstr list result" where
  "to_string JUndefined = Inr (lit ''undefined'')"
| "to_string JNull = Inr (lit ''null'')"
| "to_string (JBool b) = Inr (if b then lit ''true'' else lit ''false'')"
| "to_string (JNum n) = Inr (show_int n)"
| "to_string (JStr s) = Inr s"
| "to_string (JArr xs) =
     (case elem_strings xs of Inl e \<Rightarrow> Inl e | Inr ss \<Rightarrow> Inr (intercalate (lit '','') ss))"
| "to_string (JObj kvs) =
     (if map_of kvs (lit ''toString'') = None then Inr (lit ''[object Object]'')
      else Inl TypeError)"
| "elem_strings [] = Inr []"
| "elem_strings (x # xs) =
     (case (if x = JUndefined \<or> x = JNull then Inr [] else to_string x) of
        Inl e \<Rightarrow> Inl e
      | Inr s \<Rightarrow> (case elem_strings xs of Inl e \<Rightarrow> Inl e | Inr ss \<Rightarrow> Inr (s # ss)))"

text \<open>\<open>xs.join(sep)\<close> on an array\<close>

definition array_join :: "jsval list \<Rightarrow> jsstr \<Rightarrow> jsstr result" where
  "array_join xs sep = bindE (elem_strings xs) (\<lambda>ss. Inr (intercalate sep ss))"

text \<open>\<open>v.join(sep)\<close> on any value: only an array has a callable \<open>join\<close>.\<close>

fun call_join :: "jsval \<Rightarrow> jsstr \<Rightarrow> jsval result" where
  "call_join (JArr xs) sep = bindE (array_join xs sep) (\<lambda>s. Inr (JStr s))"
| "call_join v sep = Inl TypeError"

text \<open>\<open>v?.join(sep)\<close>\<close>

definition opt_call_join :: "jsval \<Rightarrow> jsstr \<Rightarrow> jsval result" where
  "opt_call_join v sep = (if nullish v then Inr JUndefined else call_join v sep)"

text \<open>
  \<open>v?.toString()\<close>: the \<open>toString\<close> of a string, number, boolean, array or plain
  object gives what \<open>ToString\<close> gives, and an own non-callable \<open>toString\<close> entry throws
  here as it does there.
\<close>

definition opt_call_toString :: "jsval \<Rightarrow> jsval result" where
  "opt_call_toString v =
     (if nullish v then Inr JUndefined else bindE (to_string v) (\<lambda>s. Inr (JStr s)))"

text \<open>\<open>v.substring(0, n)\<close>: only a string has a callable \<open>substring\<close>.\<close>

fun call_substring0 :: "jsval \<Rightarrow> nat \<Rightarrow> jsstr result" where
  "call_substring0 (JStr s) n = Inr (take n s)"
| "call_substring0 v n = Inl TypeError"

text \<open>\<open>v.map((s) => s.label)\<close>: only an array has a callable \<open>map\<close>.\<close>

fun call_map_label :: "jsval \<Rightarrow> jsval list result" where
  "call_map_label (JArr xs) = traverse (\<lambda>s. get_prop s (lit ''label'')) xs"
| "call_map_label v = Inl TypeError"

text \<open>
  \<open>[...new Set(xs)]\<close>: the elements in order of first occurrence. A \<open>Set\<close> compares
  primitives by value and objects by identity, and every array or object of a
  parsed document is an object of its own.
\<close>

fun primitive :: "jsval \<Rightarrow> bool" where
  "primitive (JArr xs) = False"
| "primitive (JObj kvs) = False"
| "primitive v = True"

definition same_value_zero :: "jsval \<Rightarrow> jsval \<Rightarrow> bool" where
  "same_value_zero a b = (primitive a \<and> a = b)"

definition set_insert :: "jsval \<Rightarrow> jsval list \<Rightarrow> jsval list" where
  "set_insert x acc = (if list_ex (same_value_zero x) acc then acc else acc @ [x])"

definition unique_values :: "jsval list \<Rightarrow> jsval list" where
  "unique_values xs = fold set_insert xs []"

section \<open>The update-event handler\<close>

text \<open>
  \<open>ProcessedEvent\<close> is declared in \<open>@/components/ActivityTimeline\<close> as a title and a
  payload \<open>data\<close>; every branch below stores a string there.
\<close>

record processed_event =
  title :: jsstr
  data :: jsval

definition shield :: jsstr where "shield = [0xD83D, 0xDEE1, 0xFE0F]"
definition siren :: jsstr where "siren = [0xD83D, 0xDEA8]"
definition globe :: jsstr where "globe = [0xD83C, 0xDF10]"
definition books :: jsstr where "books = [0xD83D, 0xDCDA]"
definition speech :: jsstr where "speech = [0xD83D, 0xDCAC]"
definition magnifier :: jsstr where "magnifier = [0xD83D, 0xDD0D]"
definition check_mark :: jsstr where "check_mark = [0x2705]"
definition cross_mark :: jsstr where "cross_mark = [0x274C]"
definition dquote :: jsstr where "dquote = [0x22]"
definition newline :: jsstr where "newline = [0x0A]"

text \<open>
  Lines 33--47. Where \<open>originalInput.length > 50\<close> is evaluated, \<open>substring\<close> has
  succeeded, so \<open>originalInput\<close> is a string and its length a number.
\<close>

definition input_guardrail_branch :: "jsval \<Rightarrow> processed_event result" where
  "input_guardrail_branch event =
     bindE (opt_path event (lit ''input_guardrail'') (lit ''is_safe_input'')) (\<lambda>isSafe.
     bindE (opt_path event (lit ''input_guardrail'') (lit ''guardrail_violations'')) (\<lambda>gv.
     bindE (opt_path event (lit ''input_guardrail'') (lit ''original_input'')) (\<lambda>oi.
     let violations = or_else gv (JArr []);
         originalInput = or_else oi (JStr [])
     in if truthy isSafe then
          bindE (call_substring0 originalInput 50) (\<lambda>shown.
          bindE (get_prop originalInput (lit ''length'')) (\<lambda>len.
          Inr \<lparr>title = shield @ lit '' Input Security Check'',
               data = JStr (lit ''Input validated successfully. Safe to proceed with: ''
                 @ dquote @ shown
                 @ (if (case len of JNum n \<Rightarrow> n > 50 | _ \<Rightarrow> False) then lit ''...'' else [])
                 @ dquote)\<rparr>))
        else
          bindE (call_join violations (lit '', '')) (\<lambda>joined.
          bindE (to_string joined) (\<lambda>joinedText.
          bindE (get_prop originalInput (lit ''length'')) (\<lambda>len.
          bindE (to_string len) (\<lambda>lenText.
          Inr \<lparr>title = siren @ lit '' Security Violation Detected'',
               data = JStr (lit ''Input blocked due to: '' @ joinedText
                 @ lit ''. Original input length: '' @ lenText
                 @ lit '' characters.'')\<rparr>)))))))"

text \<open>Lines 49--52.\<close>

definition guardrail_block_branch :: "processed_event" where
  "guardrail_block_branch =
     \<lparr>title = shield @ lit '' Request Blocked'',
      data = JStr (lit ''Request has been blocked by security guardrails for policy violations.'')\<rparr>"

text \<open>Lines 54--57 and 59--62: \<open>event.k?.search_query?.join(", ") || ""\<close>.\<close>

definition query_list_text :: "jsval \<Rightarrow> jsstr \<Rightarrow> jsval result" where
  "query_list_text event k =
     bindE (opt_path event k (lit ''search_query'')) (\<lambda>sq.
     bindE (opt_call_join sq (lit '', '')) (\<lambda>joined.
     Inr (or_else joined (JStr []))))"

definition generate_query_branch :: "jsval \<Rightarrow> processed_event result" where
  "generate_query_branch event =
     bindE (query_list_text event (lit ''generate_query'')) (\<lambda>d.
     Inr \<lparr>title = lit ''Generating Search Queries'', data = d\<rparr>)"

definition generate_knowledge_query_branch :: "jsval \<Rightarrow> processed_event result" where
  "generate_knowledge_query_branch event =
     bindE (query_list_text event (lit ''generate_knowledge_query'')) (\<lambda>d.
     Inr \<lparr>title = lit ''Generating Knowledge Search Queries'', data = d\<rparr>)"

text \<open>Lines 64--75.\<close>

definition web_research_branch :: "jsval \<Rightarrow> processed_event result" where
  "web_research_branch event =
     bindE (path event (lit ''web_research'') (lit ''sources_gathered'')) (\<lambda>sg.
     let sources = or_else sg (JArr []) in
     bindE (get_prop sources (lit ''length'')) (\<lambda>numSources.
     bindE (call_map_label sources) (\<lambda>labels.
     let uniqueLabels = unique_values (filter truthy labels) in
     bindE (array_join (take 3 uniqueLabels) (lit '', '')) (\<lambda>exampleLabels.
     bindE (to_string numSources) (\<lambda>numText.
     bindE (to_string (or_else (JStr exampleLabels) (JStr (lit ''N/A'')))) (\<lambda>related.
     Inr \<lparr>title = lit ''Web Research'',
          data = JStr (lit ''Gathered '' @ numText @ lit '' sources. Related to: ''
            @ related @ lit ''.'')\<rparr>))))))"

text \<open>Lines 77--94.\<close>

definition classify_query_branch :: "jsval \<Rightarrow> processed_event result" where
  "classify_query_branch event =
     bindE (opt_path event (lit ''classify_query'') (lit ''needs_web_search'')) (\<lambda>nw.
     bindE (opt_path event (lit ''classify_query'') (lit ''needs_knowledge_search'')) (\<lambda>nk.
     let needsWebSearch = or_else nw (JBool False);
         needsKnowledgeSearch = or_else nk (JBool False);
         searchTypeText =
           (if truthy needsWebSearch \<and> truthy needsKnowledgeSearch
              then globe @ books @ lit '' Web + Knowledge Search''
            else if truthy needsWebSearch then globe @ lit '' Web Search''
            else if truthy needsKnowledgeSearch then books @ lit '' Knowledge Search''
            else speech @ lit '' Direct Answer'')
     in Inr \<lparr>title = magnifier @ lit '' Query Classification'',
             data = JStr (lit ''Target Node: '' @ searchTypeText)\<rparr>))"

text \<open>Lines 96--102.\<close>

definition knowledge_search_branch :: "jsval \<Rightarrow> processed_event result" where
  "knowledge_search_branch event =
     bindE (path event (lit ''knowledge_search'') (lit ''knowledge_search_result'')) (\<lambda>ksr.
     bindE (path event (lit ''knowledge_search'') (lit ''search_query'')) (\<lambda>sq.
     let results = or_else ksr (JArr []);
         searchQuery = or_else (if nullish sq then JUndefined else opt_index0 sq) (JStr [])
     in
     bindE (get_prop results (lit ''length'')) (\<lambda>numResults.
     bindE (to_string searchQuery) (\<lambda>queryText.
     bindE (to_string numResults) (\<lambda>numText.
     Inr \<lparr>title = lit ''Knowledge Search'',
          data = JStr (lit ''Searching: '' @ dquote @ queryText @ dquote @ lit ''. Found ''
            @ numText @ lit '' relevant result''
            @ (if numResults \<noteq> JNum 1 then lit ''s'' else [])
            @ lit '' in internal knowledge base.'')\<rparr>)))))"

text \<open>
  Lines 104--113. The initialiser of \<open>queriesText\<close> ends after \<open>Array.isArray(...)\<close>: the
  next line starts a new statement, so \<open>queriesText\<close> is the boolean itself.
\<close>

definition reflection_branch :: "jsval \<Rightarrow> processed_event result" where
  "reflection_branch event =
     bindE (path event (lit ''reflection'') (lit ''is_sufficient'')) (\<lambda>suf.
     bindE (path event (lit ''reflection'') (lit ''knowledge_gap'')) (\<lambda>gap.
     bindE (path event (lit ''reflection'') (lit ''follow_up_queries'')) (\<lambda>fq.
     let isSufficient = or_else suf (JBool False);
         knowledgeGap = or_else gap (JStr (lit ''No gap identified''));
         followUpQueries = or_else fq (JArr []);
         queriesText = JBool (case followUpQueries of JArr xs \<Rightarrow> True | _ \<Rightarrow> False)
     in
     bindE (to_string knowledgeGap) (\<lambda>gapText.
     bindE (to_string queriesText) (\<lambda>qText.
     Inr \<lparr>title = lit ''Reflection'',
          data = JStr (lit ''Analysing Web Research Results: '' @ newline
            @ (if truthy isSufficient then check_mark @ lit '' Sufficient''
               else cross_mark @ lit '' Insufficient'')
            @ lit ''. '' @ newline @ lit ''Reason: '' @ gapText
            @ lit ''. '' @ newline @ lit ''Follow-up Queries: '' @ qText)\<rparr>)))))"

text \<open>Lines 115--127.\<close>

definition knowledge_reflection_branch :: "jsval \<Rightarrow> processed_event result" where
  "knowledge_reflection_branch event =
     bindE (path event (lit ''knowledge_reflection'') (lit ''is_sufficient'')) (\<lambda>suf.
     bindE (path event (lit ''knowledge_reflection'') (lit ''knowledge_gap'')) (\<lambda>gap.
     bindE (path event (lit ''knowledge_reflection'') (lit ''follow_up_queries'')) (\<lambda>fq.
     let isSufficient = or_else suf (JBool False);
         knowledgeGap = or_else gap (JStr (lit ''No gap identified''));
         followUpQueries = or_else fq (JArr [])
     in
     bindE (case followUpQueries of
              JArr xs \<Rightarrow> call_join followUpQueries (lit '', '')
            | _ \<Rightarrow> bindE (opt_call_toString followUpQueries) (\<lambda>t.
                    Inr (or_else t (JStr (lit ''No follow-up queries''))))) (\<lambda>queriesText.
     bindE (to_string knowledgeGap) (\<lambda>gapText.
     bindE (to_string queriesText) (\<lambda>qText.
     Inr \<lparr>title = lit ''Knowledge Reflection'',
          data = JStr (lit ''Analysing Knowledge Search Results: '' @ newline
            @ (if truthy isSufficient then check_mark @ lit '' Sufficient''
               else cross_mark @ lit '' Insufficient'')
            @ lit ''. '' @ newline @ lit ''Reason: '' @ gapText
            @ lit ''. '' @ newline @ lit ''Follow-up Queries: '' @ qText)\<rparr>))))))"

text \<open>Lines 129--132 and 135--138.\<close>

definition finalize_answer_branch :: "processed_event" where
  "finalize_answer_branch =
     \<lparr>title = lit ''Finalizing Answer'',
      data = JStr (lit ''Composing and presenting the final answer.'')\<rparr>"

definition finalize_knowledge_answer_branch :: "processed_event" where
  "finalize_knowledge_answer_branch =
     \<lparr>title = lit ''Finalizing Knowledge Answer'',
      data = JStr (lit ''Composing and presenting the final knowledge-based answer.'')\<rparr>"

text \<open>
  The if-chain of \<open>onUpdateEvent\<close> (lines 31--140): the value left in \<open>processedEvent\<close>
  (\<open>None\<close> for \<open>null\<close>) and whether the chain assigned \<open>true\<close> to
  \<open>hasFinalizeEventOccurredRef.current\<close>; \<open>Inl TypeError\<close> when the chain throws.
\<close>

definition entry_only :: "processed_event result \<Rightarrow> (processed_event option \<times> bool) result" where
  "entry_only r = bindE r (\<lambda>p. Inr (Some p, False))"

definition classify :: "jsval \<Rightarrow> (processed_event option \<times> bool) result" where
  "classify event =
     bindE (get_prop event (lit ''input_guardrail'')) (\<lambda>k1.
     if truthy k1 then entry_only (input_guardrail_branch event) else
     bindE (get_prop event (lit ''guardrail_block'')) (\<lambda>k2.
     if truthy k2 then Inr (Some guardrail_block_branch, False) else
     bindE (get_prop event (lit ''generate_query'')) (\<lambda>k3.
     if truthy k3 then entry_only (generate_query_branch event) else
     bindE (get_prop event (lit ''generate_knowledge_query'')) (\<lambda>k4.
     if truthy k4 then entry_only (generate_knowledge_query_branch event) else
     bindE (get_prop event (lit ''web_research'')) (\<lambda>k5.
     if truthy k5 then entry_only (web_research_branch event) else
     bindE (get_prop event (lit ''classify_query'')) (\<lambda>k6.
     if truthy k6 then entry_only (classify_query_branch event) else
     bindE (get_prop event (lit ''knowledge_search'')) (\<lambda>k7.
     if truthy k7 then entry_only (knowledge_search_branch event) else
     bindE (get_prop event (lit ''reflection'')) (\<lambda>k8.
     if truthy k8 then entry_only (reflection_branch event) else
     bindE (get_prop event (lit ''knowledge_reflection'')) (\<lambda>k9.
     if truthy k9 then entry_only (knowledge_reflection_branch event) else
     bindE (get_prop event (lit ''finalize_answer'')) (\<lambda>k10.
     if truthy k10 then Inr (Some finalize_answer_branch, True) else
     bindE (get_prop event (lit ''finalize_knowledge_answer'')) (\<lambda>k11.
     if truthy k11 then Inr (Some finalize_knowledge_answer_branch, True) else
     Inr (None, False))))))))))))"

text \<open>The stage keys in the order the chain tests them.\<close>

definition non_finalize_keys :: "jsstr list" where
  "non_finalize_keys =
     [lit ''input_guardrail'', lit ''guardrail_block'', lit ''generate_query'',
      lit ''generate_knowledge_query'', lit ''web_research'', lit ''classify_query'',
      lit ''knowledge_search'', lit ''reflection'', lit ''knowledge_reflection'']"

definition stage_keys :: "jsstr list" where
  "stage_keys = non_finalize_keys @ [lit ''finalize_answer'', lit ''finalize_knowledge_answer'']"

text \<open>The fields the branches read from a stage's payload.\<close>

definition payload_fields :: "jsstr list" where
  "payload_fields =
     [lit ''is_safe_input'', lit ''guardrail_violations'', lit ''original_input'',
      lit ''search_query'', lit ''sources_gathered'', lit ''needs_web_search'',
      lit ''needs_knowledge_search'', lit ''knowledge_search_result'',
      lit ''is_sufficient'', lit ''knowledge_gap'', lit ''follow_up_queries'']"

text \<open>
  The shapes the branches are written for: a list of strings where a branch joins,
  a string where it cuts or prints, a list of objects with a string \<open>label\<close> (or none)
  where it maps over sources, a list where it only counts. The flags may hold any
  value.
\<close>

fun is_string :: "jsval \<Rightarrow> bool" where
  "is_string (JStr s) = True"
| "is_string v = False"

fun is_list :: "jsval \<Rightarrow> bool" where
  "is_list (JArr xs) = True"
| "is_list v = False"

fun string_list :: "jsval \<Rightarrow> bool" where
  "string_list (JArr xs) = list_all is_string xs"
| "string_list v = False"

fun labelled :: "jsval \<Rightarrow> bool" where
  "labelled (JObj kvs) = (nullish (own kvs (lit ''label'')) \<or> is_string (own kvs (lit ''label'')))"
| "labelled v = False"

fun source_list :: "jsval \<Rightarrow> bool" where
  "source_list (JArr xs) = list_all labelled xs"
| "source_list v = False"

definition expected :: "jsstr \<Rightarrow> jsval \<Rightarrow> bool" where
  "expected f v =
     (if f = lit ''guardrail_violations'' \<or> f = lit ''search_query''
         \<or> f = lit ''follow_up_queries'' then string_list v
      else if f = lit ''original_input'' \<or> f = lit ''knowledge_gap'' then is_string v
      else if f = lit ''sources_gathered'' then source_list v
      else if f = lit ''knowledge_search_result'' then is_list v
      else True)"

text \<open>\<open>p?.f\<close> is missing or has the expected shape.\<close>

definition field_ok :: "jsval \<Rightarrow> jsstr \<Rightarrow> bool" where
  "field_ok p f =
     (case opt_get p f of Inl e \<Rightarrow> False | Inr v \<Rightarrow> nullish v \<or> expected f v)"

section \<open>Component state\<close>

text \<open>
  The component holds two pieces of React state and one ref. JavaScript arrays are
  objects with identity, so the state holds references into a store of arrays:
  \<open>[...xs]\<close> and \<open>[...xs, e]\<close> allocate a new array, and no statement of \<open>App.tsx\<close>
  writes into an existing one. \<open>historicalActivities\<close> maps a message id to the
  reference stored under it.
\<close>

type_synonym addr = nat

record app_state =
  heap :: "addr \<Rightarrow> processed_event list"
  next_addr :: addr
  processedEventsTimeline :: addr
  historicalActivities :: "jsstr \<rightharpoonup> addr"
  hasFinalizeEventOccurredRef :: bool

definition alloc_array :: "processed_event list \<Rightarrow> app_state \<Rightarrow> addr \<times> app_state" where
  "alloc_array xs st =
     (next_addr st, st\<lparr>heap := (heap st)(next_addr st := xs), next_addr := Suc (next_addr st)\<rparr>)"

text \<open>Lines 10--17: \<open>useState([])\<close>, \<open>useState({})\<close>, \<open>useRef(false)\<close>.\<close>

definition init_state :: app_state where
  "init_state =
     \<lparr>heap = (\<lambda>a. []), next_addr = 1, processedEventsTimeline = 0,
      historicalActivities = Map.empty, hasFinalizeEventOccurredRef = False\<rparr>"

text \<open>The live timeline and the archived timeline of a message, read through the store.\<close>

definition live :: "app_state \<Rightarrow> processed_event list" where
  "live st = heap st (processedEventsTimeline st)"

definition archived :: "app_state \<Rightarrow> jsstr \<Rightarrow> processed_event list option" where
  "archived st i = map_option (heap st) (historicalActivities st i)"

text \<open>
  Every reference of the state points to an allocated array, and no reference stored
  in \<open>historicalActivities\<close> is the reference of the live timeline.
\<close>

definition wf_state :: "app_state \<Rightarrow> bool" where
  "wf_state st =
     (processedEventsTimeline st < next_addr st
      \<and> (\<forall>i a. historicalActivities st i = Some a
             \<longrightarrow> a < next_addr st \<and> a \<noteq> processedEventsTimeline st))"

text \<open>
  \<open>onUpdateEvent\<close> (lines 30--147). When the chain throws, the callback is left before
  any state is written.
\<close>

definition onUpdateEvent :: "app_state \<Rightarrow> jsval \<Rightarrow> app_state result" where
  "onUpdateEvent st event =
     bindE (classify event) (\<lambda>(processedEvent, fin).
     let st1 = (if fin then st\<lparr>hasFinalizeEventOccurredRef := True\<rparr> else st) in
     case processedEvent of
       None \<Rightarrow> Inr st1
     | Some p \<Rightarrow>
         (let (a, st2) = alloc_array (heap st1 (processedEventsTimeline st1) @ [p]) st1
          in Inr (st2\<lparr>processedEventsTimeline := a\<rparr>)))"

text \<open>A message of the thread: \<open>id\<close> is optional in the SDK's \<open>Message\<close> type.\<close>

record message =
  msg_type :: jsstr
  msg_content :: jsval
  msg_id :: "jsstr option"

text \<open>
  The archive effect (lines 164--179), run with the thread's \<open>isLoading\<close> and
  \<open>messages\<close>.
\<close>

definition archiveEffect :: "app_state \<Rightarrow> bool \<Rightarrow> message list \<Rightarrow> app_state" where
  "archiveEffect st isLoading msgs =
     (if hasFinalizeEventOccurredRef st \<and> \<not> isLoading \<and> length msgs > 0 then
        let lastMessage = last msgs;
            st1 = (case msg_id lastMessage of
                     Some i \<Rightarrow>
                       if msg_type lastMessage = lit ''ai'' \<and> i \<noteq> [] then
                         (let (a, st') = alloc_array (heap st (processedEventsTimeline st)) st
                          in st'\<lparr>historicalActivities := (historicalActivities st')(i \<mapsto> a)\<rparr>)
                       else st
                   | None \<Rightarrow> st)
        in st1\<lparr>hasFinalizeEventOccurredRef := False\<rparr>
      else st)"

text \<open>\<open>String.prototype.trim\<close> strips white space and line terminators.\<close>

definition js_whitespace :: "16 word \<Rightarrow> bool" where
  "js_whitespace c =
     (c \<in> set [0x09, 0x0A, 0x0B, 0x0C, 0x0D, 0x20, 0xA0, 0x1680, 0x2028, 0x2029,
               0x202F, 0x205F, 0x3000, 0xFEFF]
      \<or> (0x2000 \<le> c \<and> c \<le> 0x200A))"

definition trim :: "jsstr \<Rightarrow> jsstr" where
  "trim s = rev (dropWhile js_whitespace (rev (dropWhile js_whitespace s)))"

text \<open>The payload handed to \<open>thread.submit\<close>.\<close>

record submit_payload =
  messages :: "message list"
  initial_search_query_count :: int
  max_research_loops :: int
  reasoning_model :: jsstr

text \<open>The \<open>switch (effort)\<close> of lines 191--206.\<close>

definition effort_switch :: "jsstr \<Rightarrow> int \<times> int" where
  "effort_switch effort =
     (if effort = lit ''low'' then (1, 1)
      else if effort = lit ''medium'' then (3, 3)
      else if effort = lit ''high'' then (5, 10)
      else (0, 0))"

text \<open>
  \<open>handleSubmit\<close> (lines 181--224), with the thread's \<open>messages\<close> and the value of
  \<open>Date.now()\<close>; the second component is what \<open>thread.submit\<close> receives, \<open>None\<close> when
  it is not called.
\<close>

definition handleSubmit ::
  "app_state \<Rightarrow> message list \<Rightarrow> int \<Rightarrow> jsstr \<Rightarrow> jsstr \<Rightarrow> jsstr
     \<Rightarrow> app_state \<times> submit_payload option" where
  "handleSubmit st thread_messages now submittedInputValue effort model =
     (if trim submittedInputValue = [] then (st, None)
      else
        let (a, st1) = alloc_array [] st;
            st2 = st1\<lparr>processedEventsTimeline := a, hasFinalizeEventOccurredRef := False\<rparr>;
            (count, loops) = effort_switch effort;
            newMessages = thread_messages
              @ [\<lparr>msg_type = lit ''human'', msg_content = JStr submittedInputValue,
                  msg_id = Some (show_int now)\<rparr>]
        in (st2, Some \<lparr>messages = newMessages, initial_search_query_count = count,
                      max_research_loops = loops, reasoning_model = model\<rparr>))"

text \<open>
  The states the component can be in: the initial one, and those the three handlers
  lead to, whatever the transport delivers. (\<open>handleCancel\<close> stops the thread and
  reloads the page, which starts again from the initial state.)
\<close>

inductive reachable :: "app_state \<Rightarrow> bool" where
  start: "reachable init_state"
| event: "reachable st \<Longrightarrow> onUpdateEvent st ev = Inr st' \<Longrightarrow> reachable st'"
| effect: "reachable st \<Longrightarrow> reachable (archiveEffect st isLoading msgs)"
| submit: "reachable st \<Longrightarrow> reachable (fst (handleSubmit st tm now inp effort model))"

section \<open>The classifier: helper facts\<close>

lemma truthy_not_nullish: "truthy v \<Longrightarrow> \<not> nullish v"
  by (auto simp: nullish_def)

lemma own_absent: "map_of kvs k = None \<Longrightarrow> own kvs k = JUndefined"
  by (simp add: own_def)

lemma classify_no_truthy_key:
  assumes "\<forall>k \<in> set stage_keys. \<not> truthy (own kvs k)"
  shows "classify (JObj kvs) = Inr (None, False)"
  using assms by (simp add: classify_def stage_keys_def non_finalize_keys_def bindE_def)

lemma classify_finalize:
  assumes "\<forall>k \<in> set non_finalize_keys. \<not> truthy (own kvs k)"
    and "truthy (own kvs (lit ''finalize_answer'')) \<or> truthy (own kvs (lit ''finalize_knowledge_answer''))"
  shows "classify (JObj kvs) =
     Inr (Some (if truthy (own kvs (lit ''finalize_answer'')) then finalize_answer_branch
                else finalize_knowledge_answer_branch), True)"
  using assms by (auto simp add: classify_def non_finalize_keys_def bindE_def)

subsection \<open>Payloads of the expected shape do not make the chain throw\<close>

lemma field_ok_cases:
  assumes "truthy p" and "field_ok p f"
  obtains v where "get_prop p f = Inr v" and "nullish v \<or> expected f v"
  using assms
  by (cases "get_prop p f") (auto simp add: field_ok_def opt_get_def truthy_not_nullish)

lemma elem_strings_strings:
  "list_all is_string xs \<Longrightarrow> \<exists>ss. elem_strings xs = Inr ss"
proof (induction xs)
  case Nil
  show ?case by simp
next
  case (Cons x xs)
  then obtain s ss where "x = JStr s" "elem_strings xs = Inr ss"
    by (cases x) auto
  then show ?case by simp
qed

lemma string_list_join:
  assumes "string_list v"
  shows "\<exists>s. call_join v sep = Inr (JStr s)"
proof -
  from assms obtain xs where v: "v = JArr xs" and "list_all is_string xs"
    by (cases v) auto
  then obtain ss where "elem_strings xs = Inr ss"
    using elem_strings_strings by blast
  with v show ?thesis by (simp add: array_join_def bindE_def)
qed

lemma or_else_string_list:
  assumes "nullish v \<or> string_list v"
  shows "\<exists>s. call_join (or_else v (JArr [])) sep = Inr (JStr s)"
proof (cases "truthy v")
  case True
  with assms have "string_list v" by (auto simp: nullish_def)
  with True show ?thesis by (simp add: or_else_def string_list_join)
next
  case False
  then show ?thesis by (simp add: or_else_def array_join_def bindE_def)
qed

lemma or_else_string:
  assumes "nullish v \<or> is_string v"
  shows "\<exists>s. or_else v (JStr d) = JStr s"
  using assms by (cases v) (auto simp: or_else_def nullish_def)

lemma input_guardrail_ok:
  assumes t: "truthy (own kvs (lit ''input_guardrail''))"
    and m: "\<forall>f \<in> set payload_fields. field_ok (own kvs (lit ''input_guardrail'')) f"
  shows "\<exists>r. input_guardrail_branch (JObj kvs) = Inr r"
proof -
  let ?p = "own kvs (lit ''input_guardrail'')"
  from t have n: "\<not> nullish ?p" by (rule truthy_not_nullish)
  from m have "field_ok ?p (lit ''is_safe_input'')" by (simp add: payload_fields_def)
  with t obtain safe where a: "get_prop ?p (lit ''is_safe_input'') = Inr safe"
    by (rule field_ok_cases)
  from m have "field_ok ?p (lit ''guardrail_violations'')" by (simp add: payload_fields_def)
  with t obtain gv where b: "get_prop ?p (lit ''guardrail_violations'') = Inr gv"
    and "nullish gv \<or> expected (lit ''guardrail_violations'') gv"
    by (rule field_ok_cases)
  then have "nullish gv \<or> string_list gv" by (simp add: expected_def)
  then obtain js where j: "call_join (or_else gv (JArr [])) (lit '', '') = Inr (JStr js)"
    using or_else_string_list by blast
  from m have "field_ok ?p (lit ''original_input'')" by (simp add: payload_fields_def)
  with t obtain oi where c: "get_prop ?p (lit ''original_input'') = Inr oi"
    and "nullish oi \<or> expected (lit ''original_input'') oi"
    by (rule field_ok_cases)
  then have "nullish oi \<or> is_string oi" by (simp add: expected_def lit_def)
  then obtain s where o: "or_else oi (JStr []) = JStr s"
    using or_else_string by blast
  show ?thesis using a b c n j o
    by (simp add: input_guardrail_branch_def opt_path_def opt_get_def bindE_def Let_def)
qed

lemma query_list_text_ok:
  assumes t: "truthy (own kvs k)"
    and m: "\<forall>f \<in> set payload_fields. field_ok (own kvs k) f"
  shows "\<exists>r. query_list_text (JObj kvs) k = Inr r"
proof -
  from t have n: "\<not> nullish (own kvs k)" by (rule truthy_not_nullish)
  from m have "field_ok (own kvs k) (lit ''search_query'')" by (simp add: payload_fields_def)
  with t obtain sq where a: "get_prop (own kvs k) (lit ''search_query'') = Inr sq"
    and "nullish sq \<or> expected (lit ''search_query'') sq"
    by (rule field_ok_cases)
  then have "nullish sq \<or> string_list sq" by (simp add: expected_def)
  then have "\<exists>r. opt_call_join sq (lit '', '') = Inr r"
    using string_list_join [of sq] by (auto simp add: opt_call_join_def)
  with a n show ?thesis
    by (auto simp add: query_list_text_def opt_path_def opt_get_def bindE_def)
qed

lemma traverse_labels:
  "list_all labelled xs \<Longrightarrow>
   \<exists>ls. traverse (\<lambda>s. get_prop s (lit ''label'')) xs = Inr ls
        \<and> list_all (\<lambda>l. nullish l \<or> is_string l) ls"
proof (induction xs)
  case Nil
  show ?case by simp
next
  case (Cons x xs)
  then obtain kvs where "x = JObj kvs"
    and "nullish (own kvs (lit ''label'')) \<or> is_string (own kvs (lit ''label''))"
    by (cases x) auto
  with Cons show ?case by auto
qed

lemma set_insert_subset: "set (set_insert x acc) \<subseteq> insert x (set acc)"
  by (auto simp add: set_insert_def)

lemma fold_set_insert_subset: "set (fold set_insert xs acc) \<subseteq> set xs \<union> set acc"
proof (induction xs arbitrary: acc)
  case Nil
  show ?case by simp
next
  case (Cons x xs)
  have "set (fold set_insert xs (set_insert x acc)) \<subseteq> set xs \<union> set (set_insert x acc)"
    by (rule Cons.IH)
  also have "\<dots> \<subseteq> set xs \<union> insert x (set acc)"
    using set_insert_subset [of x acc] by blast
  finally show ?case by auto
qed

lemma unique_values_subset: "set (unique_values xs) \<subseteq> set xs"
  using fold_set_insert_subset [of xs "[]"] by (simp add: unique_values_def)

lemma example_labels_strings:
  assumes "list_all (\<lambda>l. nullish l \<or> is_string l) ls"
  shows "list_all is_string (take 3 (unique_values (filter truthy ls)))"
proof -
  have "set (take 3 (unique_values (filter truthy ls))) \<subseteq> set (filter truthy ls)"
    using set_take_subset unique_values_subset by (rule subset_trans)
  moreover have "\<forall>l \<in> set (filter truthy ls). is_string l"
    using assms by (auto simp add: list_all_iff nullish_def)
  ultimately show ?thesis by (auto simp add: list_all_iff)
qed

lemma web_research_ok:
  assumes t: "truthy (own kvs (lit ''web_research''))"
    and m: "\<forall>f \<in> set payload_fields. field_ok (own kvs (lit ''web_research'')) f"
  shows "\<exists>r. web_research_branch (JObj kvs) = Inr r"
proof -
  let ?p = "own kvs (lit ''web_research'')"
  from m have "field_ok ?p (lit ''sources_gathered'')" by (simp add: payload_fields_def)
  with t obtain sg where a: "get_prop ?p (lit ''sources_gathered'') = Inr sg"
    and "nullish sg \<or> expected (lit ''sources_gathered'') sg"
    by (rule field_ok_cases)
  then have "nullish sg \<or> source_list sg" by (simp add: expected_def lit_def)
  then obtain xs where s: "or_else sg (JArr []) = JArr xs" and l: "list_all labelled xs"
    by (cases sg) (auto simp add: or_else_def nullish_def)
  from l obtain ls where ls: "call_map_label (JArr xs) = Inr ls"
    and "list_all (\<lambda>l. nullish l \<or> is_string l) ls"
    using traverse_labels by fastforce
  then have "list_all is_string (take 3 (unique_values (filter truthy ls)))"
    by (simp add: example_labels_strings)
  then obtain ss where "elem_strings (take 3 (unique_values (filter truthy ls))) = Inr ss"
    using elem_strings_strings by blast
  with a s ls show ?thesis
    by (simp add: web_research_branch_def path_def bindE_def array_join_def or_else_def Let_def)
qed

lemma classify_query_ok: "\<exists>r. classify_query_branch (JObj kvs) = Inr r"
proof (cases "nullish (own kvs (lit ''classify_query''))")
  case True
  then show ?thesis
    by (simp add: classify_query_branch_def opt_path_def opt_get_def bindE_def Let_def)
next
  case False
  then obtain a b where "get_prop (own kvs (lit ''classify_query'')) (lit ''needs_web_search'') = Inr a"
    "get_prop (own kvs (lit ''classify_query'')) (lit ''needs_knowledge_search'') = Inr b"
    by (cases "own kvs (lit ''classify_query'')") (auto simp: nullish_def)
  with False show ?thesis
    by (simp add: classify_query_branch_def opt_path_def opt_get_def bindE_def Let_def)
qed

lemma first_query_text:
  assumes "nullish sq \<or> string_list sq"
  shows "\<exists>s. or_else (if nullish sq then JUndefined else opt_index0 sq) (JStr []) = JStr s"
proof (cases "nullish sq")
  case True
  then show ?thesis by (simp add: or_else_def)
next
  case False
  with assms obtain xs where "sq = JArr xs" and "list_all is_string xs"
    by (cases sq) auto
  with False show ?thesis
    by (cases xs; cases "hd xs") (auto simp add: or_else_def)
qed

lemma knowledge_search_ok:
  assumes t: "truthy (own kvs (lit ''knowledge_search''))"
    and m: "\<forall>f \<in> set payload_fields. field_ok (own kvs (lit ''knowledge_search'')) f"
  shows "\<exists>r. knowledge_search_branch (JObj kvs) = Inr r"
proof -
  let ?p = "own kvs (lit ''knowledge_search'')"
  from m have "field_ok ?p (lit ''knowledge_search_result'')" by (simp add: payload_fields_def)
  with t obtain ksr where a: "get_prop ?p (lit ''knowledge_search_result'') = Inr ksr"
    and "nullish ksr \<or> expected (lit ''knowledge_search_result'') ksr"
    by (rule field_ok_cases)
  then have "nullish ksr \<or> is_list ksr" by (simp add: expected_def lit_def)
  then obtain xs where r: "or_else ksr (JArr []) = JArr xs"
    by (cases ksr) (auto simp add: or_else_def nullish_def)
  from m have "field_ok ?p (lit ''search_query'')" by (simp add: payload_fields_def)
  with t obtain sq where b: "get_prop ?p (lit ''search_query'') = Inr sq"
    and "nullish sq \<or> expected (lit ''search_query'') sq"
    by (rule field_ok_cases)
  then have "nullish sq \<or> string_list sq" by (simp add: expected_def)
  then obtain s where
    q: "or_else (if nullish sq then JUndefined else opt_index0 sq) (JStr []) = JStr s"
    using first_query_text by blast
  show ?thesis using a b r q
    by (simp add: knowledge_search_branch_def path_def bindE_def Let_def)
qed

lemma reflection_ok:
  assumes t: "truthy (own kvs (lit ''reflection''))"
    and m: "\<forall>f \<in> set payload_fields. field_ok (own kvs (lit ''reflection'')) f"
  shows "\<exists>r. reflection_branch (JObj kvs) = Inr r"
proof -
  let ?p = "own kvs (lit ''reflection'')"
  from t have n: "\<not> nullish ?p" by (rule truthy_not_nullish)
  then obtain suf fq where a: "get_prop ?p (lit ''is_sufficient'') = Inr suf"
    and c: "get_prop ?p (lit ''follow_up_queries'') = Inr fq"
    by (cases ?p) (auto simp: nullish_def)
  from m have "field_ok ?p (lit ''knowledge_gap'')" by (simp add: payload_fields_def)
  with t obtain gap where b: "get_prop ?p (lit ''knowledge_gap'') = Inr gap"
    and "nullish gap \<or> expected (lit ''knowledge_gap'') gap"
    by (rule field_ok_cases)
  then have "nullish gap \<or> is_string gap" by (simp add: expected_def lit_def)
  then obtain s where g: "or_else gap (JStr (lit ''No gap identified'')) = JStr s"
    using or_else_string by blast
  show ?thesis using a b c g
    by (simp add: reflection_branch_def path_def bindE_def Let_def)
qed

lemma knowledge_reflection_ok:
  assumes t: "truthy (own kvs (lit ''knowledge_reflection''))"
    and m: "\<forall>f \<in> set payload_fields. field_ok (own kvs (lit ''knowledge_reflection'')) f"
  shows "\<exists>r. knowledge_reflection_branch (JObj kvs) = Inr r"
proof -
  let ?p = "own kvs (lit ''knowledge_reflection'')"
  from t have n: "\<not> nullish ?p" by (rule truthy_not_nullish)
  then obtain suf where a: "get_prop ?p (lit ''is_sufficient'') = Inr suf"
    by (cases ?p) (auto simp: nullish_def)
  from m have "field_ok ?p (lit ''knowledge_gap'')" by (simp add: payload_fields_def)
  with t obtain gap where b: "get_prop ?p (lit ''knowledge_gap'') = Inr gap"
    and "nullish gap \<or> expected (lit ''knowledge_gap'') gap"
    by (rule field_ok_cases)
  then have "nullish gap \<or> is_string gap" by (simp add: expected_def lit_def)
  then obtain s where g: "or_else gap (JStr (lit ''No gap identified'')) = JStr s"
    using or_else_string by blast
  from m have "field_ok ?p (lit ''follow_up_queries'')" by (simp add: payload_fields_def)
  with t obtain fq where c: "get_prop ?p (lit ''follow_up_queries'') = Inr fq"
    and "nullish fq \<or> expected (lit ''follow_up_queries'') fq"
    by (rule field_ok_cases)
  then have f: "nullish fq \<or> string_list fq" by (simp add: expected_def lit_def)
  then obtain xs where x: "or_else fq (JArr []) = JArr xs"
    by (cases fq) (auto simp add: or_else_def nullish_def)
  from f obtain js where j: "call_join (or_else fq (JArr [])) (lit '', '') = Inr (JStr js)"
    using or_else_string_list by blast
  show ?thesis using a b c g j x
    by (simp add: knowledge_reflection_branch_def path_def bindE_def Let_def)
qed

lemma entry_only_ok: "\<exists>r. b = Inr r \<Longrightarrow> \<not> isl (entry_only b)"
  by (auto simp: entry_only_def bindE_def)

lemma classify_fields_ok:
  assumes m: "\<forall>k \<in> set stage_keys. \<forall>f \<in> set payload_fields. field_ok (own kvs k) f"
  shows "\<exists>r. classify (JObj kvs) = Inr r"
proof -
  have k: "\<And>k. k \<in> set stage_keys \<Longrightarrow> \<forall>f \<in> set payload_fields. field_ok (own kvs k) f"
    using m by blast
  have 1: "truthy (own kvs (lit ''input_guardrail'')) \<Longrightarrow> \<not> isl (entry_only (input_guardrail_branch (JObj kvs)))"
    by (intro entry_only_ok input_guardrail_ok k) (simp_all add: stage_keys_def non_finalize_keys_def)
  have 3: "truthy (own kvs (lit ''generate_query'')) \<Longrightarrow> \<not> isl (entry_only (generate_query_branch (JObj kvs)))"
    using query_list_text_ok [of kvs "lit ''generate_query''"] k [of "lit ''generate_query''"]
    by (auto simp add: entry_only_def generate_query_branch_def bindE_def stage_keys_def non_finalize_keys_def)
  have 4: "truthy (own kvs (lit ''generate_knowledge_query'')) \<Longrightarrow> \<not> isl (entry_only (generate_knowledge_query_branch (JObj kvs)))"
    using query_list_text_ok [of kvs "lit ''generate_knowledge_query''"] k [of "lit ''generate_knowledge_query''"]
    by (auto simp add: entry_only_def generate_knowledge_query_branch_def bindE_def stage_keys_def non_finalize_keys_def)
  have 5: "truthy (own kvs (lit ''web_research'')) \<Longrightarrow> \<not> isl (entry_only (web_research_branch (JObj kvs)))"
    by (intro entry_only_ok web_research_ok k) (simp_all add: stage_keys_def non_finalize_keys_def)
  have 6: "\<not> isl (entry_only (classify_query_branch (JObj kvs)))"
    by (intro entry_only_ok classify_query_ok)
  have 7: "truthy (own kvs (lit ''knowledge_search'')) \<Longrightarrow> \<not> isl (entry_only (knowledge_search_branch (JObj kvs)))"
    by (intro entry_only_ok knowledge_search_ok k) (simp_all add: stage_keys_def non_finalize_keys_def)
  have 8: "truthy (own kvs (lit ''reflection'')) \<Longrightarrow> \<not> isl (entry_only (reflection_branch (JObj kvs)))"
    by (intro entry_only_ok reflection_ok k) (simp_all add: stage_keys_def non_finalize_keys_def)
  have 9: "truthy (own kvs (lit ''knowledge_reflection'')) \<Longrightarrow> \<not> isl (entry_only (knowledge_reflection_branch (JObj kvs)))"
    by (intro entry_only_ok knowledge_reflection_ok k) (simp_all add: stage_keys_def non_finalize_keys_def)
  have "\<not> isl (classify (JObj kvs))"
    using 1 3 4 5 6 7 8 9 by (simp add: classify_def bindE_def)
  then show ?thesis
    by (cases "classify (JObj kvs)") simp_all
qed

section \<open>The state invariant\<close>

lemma onUpdateEvent_cases:
  assumes "onUpdateEvent st ev = Inr st'"
  obtains
    (none) fin where "classify ev = Inr (None, fin)"
      "st' = (if fin then st\<lparr>hasFinalizeEventOccurredRef := True\<rparr> else st)"
  | (some) p fin where "classify ev = Inr (Some p, fin)"
      "st' = st\<lparr>heap := (heap st)(next_addr st := heap st (processedEventsTimeline st) @ [p]),
                next_addr := Suc (next_addr st),
                processedEventsTimeline := next_addr st,
                hasFinalizeEventOccurredRef := (fin \<or> hasFinalizeEventOccurredRef st)\<rparr>"
  using assms
  by (cases "classify ev")
     (auto simp add: onUpdateEvent_def bindE_def alloc_array_def Let_def
           split: option.splits if_splits)

lemma wf_init: "wf_state init_state"
  by (simp add: wf_state_def init_state_def)

lemma wf_event:
  assumes "wf_state st" and "onUpdateEvent st ev = Inr st'"
  shows "wf_state st'"
  using assms(2)
proof (cases rule: onUpdateEvent_cases)
  case (none fin)
  with assms(1) show ?thesis by (auto simp add: wf_state_def)
next
  case (some p fin)
  with assms(1) show ?thesis by (fastforce simp add: wf_state_def intro: less_SucI)
qed

lemma wf_effect:
  assumes "wf_state st"
  shows "wf_state (archiveEffect st isLoading msgs)"
  using assms
  by (fastforce simp add: wf_state_def archiveEffect_def alloc_array_def Let_def
        intro: less_SucI split: option.splits if_splits)

lemma wf_submit:
  assumes "wf_state st"
  shows "wf_state (fst (handleSubmit st tm now inp effort model))"
  using assms
  by (fastforce simp add: wf_state_def handleSubmit_def alloc_array_def Let_def
        intro: less_SucI split: prod.splits)

lemma reachable_wf: "reachable st \<Longrightarrow> wf_state st"
  by (induction rule: reachable.induct) (auto intro: wf_init wf_event wf_effect wf_submit)

lemmas string_consts = lit_def shield_def siren_def globe_def books_def speech_def
  magnifier_def check_mark_def cross_mark_def dquote_def newline_def

lemmas js_ops = bindE_def path_def opt_path_def opt_get_def nullish_def or_else_def
  own_def array_join_def opt_call_join_def opt_call_toString_def entry_only_def

section \<open>The handler on concrete events\<close>

text \<open>
  Two scenarios of the specification, and the \<open>knowledge_reflection\<close> branch on a list
  of follow-up queries: it joins them.
\<close>

lemma web_research_scenario:
  "classify (JObj [(lit ''web_research'', JObj [(lit ''sources_gathered'',
       JArr [JObj [(lit ''label'', JStr (lit ''A''))], JObj [(lit ''label'', JStr (lit ''A''))],
             JObj [(lit ''label'', JStr (lit ''B''))]])])])
   = Inr (Some \<lparr>title = lit ''Web Research'',
                 data = JStr (lit ''Gathered 3 sources. Related to: A, B.'')\<rparr>, False)"
  by (simp add: classify_def web_research_branch_def js_ops string_consts
        unique_values_def set_insert_def same_value_zero_def show_int_def show_nat.simps)

lemma input_guardrail_scenario:
  "classify (JObj [(lit ''input_guardrail'',
       JObj [(lit ''is_safe_input'', JBool False),
             (lit ''guardrail_violations'', JArr [JStr (lit ''profanity'')]),
             (lit ''original_input'', JStr (replicate 60 0x78))])])
   = Inr (Some \<lparr>title = siren @ lit '' Security Violation Detected'',
                 data = JStr (lit ''Input blocked due to: profanity. Original input length: 60 characters.'')\<rparr>,
          False)"
  by (simp add: classify_def input_guardrail_branch_def js_ops string_consts
        show_int_def show_nat.simps)

lemma knowledge_reflection_joins_queries:
  "classify (JObj [(lit ''knowledge_reflection'',
       JObj [(lit ''is_sufficient'', JBool True),
             (lit ''knowledge_gap'', JStr (lit ''g'')),
             (lit ''follow_up_queries'', JArr [JStr (lit ''a''), JStr (lit ''b'')])])])
   = Inr (Some \<lparr>title = lit ''Knowledge Reflection'',
                 data = JStr (lit ''Analysing Knowledge Search Results: '' @ newline
                   @ check_mark @ lit '' Sufficient. '' @ newline
                   @ lit ''Reason: g. '' @ newline
                   @ lit ''Follow-up Queries: a, b'')\<rparr>, False)"
  by (simp add: classify_def knowledge_reflection_branch_def js_ops string_consts)

text \<open>Two concrete steps, used to build reachable states.\<close>

lemma reachable_after_finalize:
  "onUpdateEvent init_state (JObj [(lit ''finalize_answer'', JObj [])])
     = Inr (init_state\<lparr>heap := (heap init_state)(1 := [finalize_answer_branch]),
              next_addr := 2, processedEventsTimeline := 1,
              hasFinalizeEventOccurredRef := True\<rparr>)"
  by (simp add: onUpdateEvent_def classify_def js_ops lit_def alloc_array_def init_state_def)

lemma guardrail_block_event:
  "onUpdateEvent st (JObj [(lit ''guardrail_block'', JBool True)])
     = Inr (st\<lparr>heap := (heap st)(next_addr st :=
                  heap st (processedEventsTimeline st) @ [guardrail_block_branch]),
              next_addr := Suc (next_addr st),
              processedEventsTimeline := next_addr st\<rparr>)"
  by (simp add: onUpdateEvent_def classify_def js_ops lit_def alloc_array_def)

lemma reachable_finalized:
  "reachable (init_state\<lparr>heap := (heap init_state)(1 := [finalize_answer_branch]),
              next_addr := 2, processedEventsTimeline := 1,
              hasFinalizeEventOccurredRef := True\<rparr>)"
  using reachable.start reachable_after_finalize by (rule reachable.event)

section \<open>Claims\<close>

text \<open>
  C1. The claim: a reflection event's entry is titled "Reflection" and its summary
  holds the follow-up queries joined with ", ". On the event
  \<open>{reflection: {is_sufficient: true, knowledge_gap: "g", follow_up_queries: ["a", "b"]}}\<close>
  the handler renders the result of \<open>Array.isArray\<close> instead: the summary ends in
  "Follow-up Queries: true", and the queries do not occur in it.
\<close>

theorem reflection_renders_boolean_for_queries:
  "classify (JObj [(lit ''reflection'',
       JObj [(lit ''is_sufficient'', JBool True),
             (lit ''knowledge_gap'', JStr (lit ''g'')),
             (lit ''follow_up_queries'', JArr [JStr (lit ''a''), JStr (lit ''b'')])])])
   = Inr (Some \<lparr>title = lit ''Reflection'',
                 data = JStr (lit ''Analysing Web Research Results: '' @ newline
                   @ check_mark @ lit '' Sufficient. '' @ newline
                   @ lit ''Reason: g. '' @ newline
                   @ lit ''Follow-up Queries: true'')\<rparr>, False)"
  by (simp add: classify_def reflection_branch_def js_ops string_consts)

text \<open>
  C2, as claimed: when the archive effect runs with the latch set and writes no
  entry, the latch stays true. It does not: with the latch set, the stream idle and
  a human message last, nothing is archived and the latch is cleared.
\<close>

theorem archiveEffect_clears_latch_without_archiving:
  "hasFinalizeEventOccurredRef (init_state\<lparr>hasFinalizeEventOccurredRef := True\<rparr>)
   \<and> historicalActivities (archiveEffect (init_state\<lparr>hasFinalizeEventOccurredRef := True\<rparr>) False
        [\<lparr>msg_type = lit ''human'', msg_content = JStr (lit ''hi''), msg_id = Some (lit ''1'')\<rparr>])
      = historicalActivities (init_state\<lparr>hasFinalizeEventOccurredRef := True\<rparr>)
   \<and> \<not> hasFinalizeEventOccurredRef (archiveEffect (init_state\<lparr>hasFinalizeEventOccurredRef := True\<rparr>) False
        [\<lparr>msg_type = lit ''human'', msg_content = JStr (lit ''hi''), msg_id = Some (lit ''1'')\<rparr>])"
  by (simp add: archiveEffect_def init_state_def lit_def)

text \<open>
  C2, amended: after the archive effect the latch is set exactly when it was set
  before and the effect's outer condition failed, that is, the stream is still
  loading or there is no message. Once the latch is set, the stream is idle and a
  message exists, the latch is cleared, whether or not an entry was archived.
\<close>

theorem archiveEffect_latch:
  "hasFinalizeEventOccurredRef (archiveEffect st isLoading msgs)
     = (hasFinalizeEventOccurredRef st \<and> (isLoading \<or> msgs = []))"
  by (auto simp add: archiveEffect_def Let_def alloc_array_def split: option.splits)

theorem archiveEffect_latch_witness:
  "hasFinalizeEventOccurredRef (archiveEffect (init_state\<lparr>hasFinalizeEventOccurredRef := True\<rparr>) True
       [\<lparr>msg_type = lit ''human'', msg_content = JStr (lit ''hi''), msg_id = Some (lit ''1'')\<rparr>])
   \<and> \<not> hasFinalizeEventOccurredRef (archiveEffect (init_state\<lparr>hasFinalizeEventOccurredRef := True\<rparr>) False
       [\<lparr>msg_type = lit ''ai'', msg_content = JStr (lit ''hi''), msg_id = None\<rparr>])"
  using archiveEffect_latch [of "init_state\<lparr>hasFinalizeEventOccurredRef := True\<rparr>" True
      "[\<lparr>msg_type = lit ''human'', msg_content = JStr (lit ''hi''), msg_id = Some (lit ''1'')\<rparr>]"]
    archiveEffect_latch [of "init_state\<lparr>hasFinalizeEventOccurredRef := True\<rparr>" False
      "[\<lparr>msg_type = lit ''ai'', msg_content = JStr (lit ''hi''), msg_id = None\<rparr>]"]
  by simp

text \<open>
  C3, as claimed: every event carrying a finalize key sets the finalize flag,
  whatever else the event carries. It does not: on \<open>{reflection: {}, finalize_answer: {}}\<close>
  the reflection branch is taken and the flag is not set.
\<close>

theorem finalize_shadowed_by_earlier_key:
  "classify (JObj [(lit ''reflection'', JObj []), (lit ''finalize_answer'', JObj [])])
   = Inr (Some \<lparr>title = lit ''Reflection'',
                 data = JStr (lit ''Analysing Web Research Results: '' @ newline
                   @ cross_mark @ lit '' Insufficient. '' @ newline
                   @ lit ''Reason: No gap identified. '' @ newline
                   @ lit ''Follow-up Queries: true'')\<rparr>, False)"
  by (simp add: classify_def reflection_branch_def js_ops string_consts)

text \<open>
  C3, amended: for every event object in which \<open>finalize_answer\<close> or
  \<open>finalize_knowledge_answer\<close> holds a truthy value and none of the nine stage keys
  tested before them does, classification produces an entry with the finalize flag
  set, and the handler sets \<open>hasFinalizeEventOccurredRef\<close>, whatever other fields
  the event has.
\<close>

theorem finalize_key_sets_latch:
  assumes "\<forall>k \<in> set non_finalize_keys. \<not> truthy (own kvs k)"
    and "truthy (own kvs (lit ''finalize_answer''))
         \<or> truthy (own kvs (lit ''finalize_knowledge_answer''))"
  shows "(\<exists>p. classify (JObj kvs) = Inr (Some p, True))
     \<and> (\<exists>st'. onUpdateEvent st (JObj kvs) = Inr st' \<and> hasFinalizeEventOccurredRef st')"
  using classify_finalize [OF assms]
  by (simp add: onUpdateEvent_def bindE_def alloc_array_def Let_def)

theorem finalize_key_sets_latch_witness:
  "(\<exists>p. classify (JObj [(lit ''finalize_knowledge_answer'', JObj []), (lit ''note'', JNum 1)])
          = Inr (Some p, True))
   \<and> (\<exists>st'. onUpdateEvent init_state
          (JObj [(lit ''finalize_knowledge_answer'', JObj []), (lit ''note'', JNum 1)]) = Inr st'
        \<and> hasFinalizeEventOccurredRef st')"
proof -
  let ?kvs = "[(lit ''finalize_knowledge_answer'', JObj []), (lit ''note'', JNum 1)]"
  have a: "\<forall>k \<in> set non_finalize_keys. \<not> truthy (own ?kvs k)"
    by (simp add: non_finalize_keys_def own_def lit_def)
  have b: "truthy (own ?kvs (lit ''finalize_answer''))
         \<or> truthy (own ?kvs (lit ''finalize_knowledge_answer''))"
    by (simp add: own_def lit_def)
  show ?thesis using finalize_key_sets_latch [OF a b, of init_state] .
qed

text \<open>
  C4, as claimed: after every call of \<open>handleSubmit\<close> the latch is false. It is not:
  a blank input returns at line 183, before the reset, and a set latch stays set.
\<close>

theorem blank_submission_keeps_latch:
  "hasFinalizeEventOccurredRef (fst (handleSubmit (init_state\<lparr>hasFinalizeEventOccurredRef := True\<rparr>)
      [] 0 (lit '' '') (lit ''low'') (lit ''m'')))"
  by (simp add: handleSubmit_def lit_def trim_def js_whitespace_def)

text \<open>
  C4, amended: after every call of \<open>handleSubmit\<close> whose input is not blank, the
  live timeline is the empty list and the latch is false, whatever they held before.
\<close>

theorem handleSubmit_resets:
  assumes "trim inp \<noteq> []"
  shows "live (fst (handleSubmit st tm now inp effort model)) = []
     \<and> \<not> hasFinalizeEventOccurredRef (fst (handleSubmit st tm now inp effort model))"
  using assms
  by (simp add: handleSubmit_def alloc_array_def live_def Let_def split: prod.splits)

theorem handleSubmit_resets_witness:
  "live (fst (handleSubmit (init_state\<lparr>hasFinalizeEventOccurredRef := True\<rparr>) [] 0
       (lit ''hi'') (lit ''low'') (lit ''m''))) = []
   \<and> \<not> hasFinalizeEventOccurredRef (fst (handleSubmit (init_state\<lparr>hasFinalizeEventOccurredRef := True\<rparr>)
       [] 0 (lit ''hi'') (lit ''low'') (lit ''m'')))"
proof -
  have h: "trim (lit ''hi'') \<noteq> []"
    by (simp add: trim_def lit_def js_whitespace_def)
  show ?thesis using handleSubmit_resets [OF h] .
qed

text \<open>
  C5. Running the archive effect twice on the same terminal state (latch set, stream
  idle, the same last message, written by the agent and carrying a non-empty id)
  archives once: the first run stores a copy of the live timeline under the id and
  clears the latch, the second run returns the state as it found it.
\<close>

theorem archiveEffect_twice:
  assumes "hasFinalizeEventOccurredRef st" and "\<not> isLoading" and "msgs \<noteq> []"
    and "msg_type (last msgs) = lit ''ai''" and "msg_id (last msgs) = Some i" and "i \<noteq> []"
  shows "archived (archiveEffect st isLoading msgs) i = Some (live st)
     \<and> historicalActivities (archiveEffect st isLoading msgs)
         = (historicalActivities st)(i \<mapsto> next_addr st)
     \<and> \<not> hasFinalizeEventOccurredRef (archiveEffect st isLoading msgs)
     \<and> archiveEffect (archiveEffect st isLoading msgs) isLoading msgs
         = archiveEffect st isLoading msgs"
  using assms
  by (simp add: archiveEffect_def alloc_array_def archived_def live_def Let_def)

theorem archiveEffect_twice_witness:
  "archived (archiveEffect (init_state\<lparr>hasFinalizeEventOccurredRef := True\<rparr>) False
      [\<lparr>msg_type = lit ''ai'', msg_content = JStr (lit ''done''), msg_id = Some (lit ''m1'')\<rparr>])
      (lit ''m1'') = Some []
   \<and> archiveEffect (archiveEffect (init_state\<lparr>hasFinalizeEventOccurredRef := True\<rparr>) False
        [\<lparr>msg_type = lit ''ai'', msg_content = JStr (lit ''done''), msg_id = Some (lit ''m1'')\<rparr>])
        False
        [\<lparr>msg_type = lit ''ai'', msg_content = JStr (lit ''done''), msg_id = Some (lit ''m1'')\<rparr>]
      = archiveEffect (init_state\<lparr>hasFinalizeEventOccurredRef := True\<rparr>) False
        [\<lparr>msg_type = lit ''ai'', msg_content = JStr (lit ''done''), msg_id = Some (lit ''m1'')\<rparr>]"
proof -
  let ?st = "init_state\<lparr>hasFinalizeEventOccurredRef := True\<rparr>"
  let ?msgs = "[\<lparr>msg_type = lit ''ai'', msg_content = JStr (lit ''done''), msg_id = Some (lit ''m1'')\<rparr>]"
  have l: "live ?st = []" by (simp add: live_def init_state_def)
  have "archived (archiveEffect ?st False ?msgs) (lit ''m1'') = Some (live ?st)
     \<and> historicalActivities (archiveEffect ?st False ?msgs)
         = (historicalActivities ?st)(lit ''m1'' \<mapsto> next_addr ?st)
     \<and> \<not> hasFinalizeEventOccurredRef (archiveEffect ?st False ?msgs)
     \<and> archiveEffect (archiveEffect ?st False ?msgs) False ?msgs = archiveEffect ?st False ?msgs"
    by (rule archiveEffect_twice) (simp_all add: lit_def)
  with l show ?thesis by simp
qed

text \<open>
  C6, as claimed: classification never throws on malformed nested fields. It does:
  on \<open>{generate_query: {search_query: "abc"}}\<close> the chain calls \<open>join\<close> on a string and
  throws a TypeError.
\<close>

theorem generate_query_string_raises:
  "classify (JObj [(lit ''generate_query'', JObj [(lit ''search_query'', JStr (lit ''abc''))])])
     = Inl TypeError"
  by (simp add: classify_def generate_query_branch_def query_list_text_def js_ops string_consts)

text \<open>
  C6, amended: for every event object that has none of the stage keys,
  classification returns no entry and no finalize flag, and the handler leaves the
  state as it is; and classification does not throw on an event whose stage
  payloads have each nested field missing (\<open>undefined\<close> or \<open>null\<close>) or of the shape the
  branch expects.
\<close>

theorem classify_unknown_or_well_shaped:
  "((\<forall>k \<in> set stage_keys. map_of kvs k = None)
      \<longrightarrow> classify (JObj kvs) = Inr (None, False) \<and> onUpdateEvent st (JObj kvs) = Inr st)
   \<and> ((\<forall>k \<in> set stage_keys. \<forall>f \<in> set payload_fields. field_ok (own kvs k) f)
      \<longrightarrow> (\<exists>r. classify (JObj kvs) = Inr r))"
proof (intro conjI impI)
  assume a: "\<forall>k \<in> set stage_keys. map_of kvs k = None"
  then have "\<forall>k \<in> set stage_keys. \<not> truthy (own kvs k)"
    by (simp add: own_absent)
  then show c: "classify (JObj kvs) = Inr (None, False)"
    by (rule classify_no_truthy_key)
  then show "onUpdateEvent st (JObj kvs) = Inr st"
    by (simp add: onUpdateEvent_def bindE_def)
next
  assume "\<forall>k \<in> set stage_keys. \<forall>f \<in> set payload_fields. field_ok (own kvs k) f"
  then show "\<exists>r. classify (JObj kvs) = Inr r"
    by (rule classify_fields_ok)
qed

theorem classify_unknown_or_well_shaped_witness:
  "classify (JObj [(lit ''heartbeat'', JNum 1)]) = Inr (None, False)
   \<and> onUpdateEvent init_state (JObj [(lit ''heartbeat'', JNum 1)]) = Inr init_state
   \<and> (\<exists>r. classify (JObj [(lit ''generate_query'',
              JObj [(lit ''search_query'', JArr [JStr (lit ''q1''), JStr (lit ''q2'')])])]) = Inr r)
   \<and> (\<exists>r. classify (JObj [(lit ''web_research'', JObj [])]) = Inr r)"
proof -
  have a: "\<forall>k \<in> set stage_keys. map_of [(lit ''heartbeat'', JNum 1)] k = None"
    by (simp add: stage_keys_def non_finalize_keys_def lit_def)
  have b: "\<forall>k \<in> set stage_keys. \<forall>f \<in> set payload_fields.
             field_ok (own [(lit ''generate_query'',
               JObj [(lit ''search_query'', JArr [JStr (lit ''q1''), JStr (lit ''q2'')])])] k) f"
    by (simp add: stage_keys_def non_finalize_keys_def payload_fields_def field_ok_def
          expected_def opt_get_def nullish_def own_def lit_def)
  have c: "\<forall>k \<in> set stage_keys. \<forall>f \<in> set payload_fields.
             field_ok (own [(lit ''web_research'', JObj [])] k) f"
    by (simp add: stage_keys_def non_finalize_keys_def payload_fields_def field_ok_def
          expected_def opt_get_def nullish_def own_def lit_def)
  show ?thesis
    using classify_unknown_or_well_shaped [of "[(lit ''heartbeat'', JNum 1)]" init_state] a
      classify_unknown_or_well_shaped [of "[(lit ''generate_query'',
               JObj [(lit ''search_query'', JArr [JStr (lit ''q1''), JStr (lit ''q2'')])])]" init_state] b
      classify_unknown_or_well_shaped [of "[(lit ''web_research'', JObj [])]" init_state] c
    by blast
qed

text \<open>
  C7. In every reachable state, a successful archive operation stores the snapshot
  under the message id and clears the latch, and leaves the live timeline as it
  was, reference and contents. After it an update event can only extend the live
  timeline; the next submission with a non-blank input empties it.
\<close>

theorem archive_keeps_live_timeline:
  assumes "reachable st" and "hasFinalizeEventOccurredRef st" and "\<not> isLoading"
    and "msgs \<noteq> []" and "msg_type (last msgs) = lit ''ai''"
    and "msg_id (last msgs) = Some i" and "i \<noteq> []"
  shows "live (archiveEffect st isLoading msgs) = live st
     \<and> processedEventsTimeline (archiveEffect st isLoading msgs) = processedEventsTimeline st
     \<and> archived (archiveEffect st isLoading msgs) i = Some (live st)
     \<and> \<not> hasFinalizeEventOccurredRef (archiveEffect st isLoading msgs)
     \<and> (onUpdateEvent (archiveEffect st isLoading msgs) ev = Inr st'
          \<longrightarrow> (\<exists>es. live st' = live st @ es))
     \<and> (trim inp \<noteq> []
          \<longrightarrow> live (fst (handleSubmit (archiveEffect st isLoading msgs) tm now inp effort model)) = [])"
proof -
  let ?st1 = "archiveEffect st isLoading msgs"
  from assms(1) have "wf_state st" by (rule reachable_wf)
  then have lt: "processedEventsTimeline st < next_addr st" by (simp add: wf_state_def)
  have st1: "?st1 = st\<lparr>heap := (heap st)(next_addr st := heap st (processedEventsTimeline st)),
        next_addr := Suc (next_addr st),
        historicalActivities := (historicalActivities st)(i \<mapsto> next_addr st),
        hasFinalizeEventOccurredRef := False\<rparr>"
    using assms by (simp add: archiveEffect_def alloc_array_def Let_def)
  have l: "live ?st1 = live st"
    using lt by (simp add: st1 live_def)
  have e: "\<exists>es. live st' = live st @ es" if "onUpdateEvent ?st1 ev = Inr st'"
    using that
  proof (cases rule: onUpdateEvent_cases)
    case (none fin)
    then have "live st' = live ?st1" by (simp add: live_def)
    with l show ?thesis by simp
  next
    case (some p fin)
    then have "live st' = live ?st1 @ [p]" by (simp add: live_def)
    with l show ?thesis by simp
  qed
  have s: "live (fst (handleSubmit ?st1 tm now inp effort model)) = []" if "trim inp \<noteq> []"
    using that
    by (simp add: handleSubmit_def alloc_array_def live_def Let_def split: prod.splits)
  show ?thesis
    using l e s by (simp add: st1 archived_def live_def)
qed

theorem archive_keeps_live_timeline_witness:
  "let st = init_state\<lparr>heap := (heap init_state)(1 := [finalize_answer_branch]),
              next_addr := 2, processedEventsTimeline := 1,
              hasFinalizeEventOccurredRef := True\<rparr>;
       st1 = archiveEffect st False
              [\<lparr>msg_type = lit ''ai'', msg_content = JStr (lit ''done''), msg_id = Some (lit ''m1'')\<rparr>]
   in live st = [finalize_answer_branch]
    \<and> live st1 = [finalize_answer_branch]
    \<and> archived st1 (lit ''m1'') = Some [finalize_answer_branch]
    \<and> \<not> hasFinalizeEventOccurredRef st1
    \<and> (\<exists>st' es. onUpdateEvent st1 (JObj [(lit ''guardrail_block'', JBool True)]) = Inr st'
          \<and> live st' = [finalize_answer_branch] @ es)
    \<and> live (fst (handleSubmit st1 [] 7 (lit ''next'') (lit ''low'') (lit ''m''))) = []"
proof -
  let ?st = "init_state\<lparr>heap := (heap init_state)(1 := [finalize_answer_branch]),
              next_addr := 2, processedEventsTimeline := 1,
              hasFinalizeEventOccurredRef := True\<rparr>"
  let ?msgs = "[\<lparr>msg_type = lit ''ai'', msg_content = JStr (lit ''done''), msg_id = Some (lit ''m1'')\<rparr>]"
  let ?st1 = "archiveEffect ?st False ?msgs"
  let ?ev = "JObj [(lit ''guardrail_block'', JBool True)]"
  have l: "live ?st = [finalize_answer_branch]"
    by (simp add: live_def)
  have h: "trim (lit ''next'') \<noteq> []"
    by (simp add: trim_def lit_def js_whitespace_def)
  obtain st' where e: "onUpdateEvent ?st1 ?ev = Inr st'"
    using guardrail_block_event by blast
  have "live ?st1 = live ?st
     \<and> processedEventsTimeline ?st1 = processedEventsTimeline ?st
     \<and> archived ?st1 (lit ''m1'') = Some (live ?st)
     \<and> \<not> hasFinalizeEventOccurredRef ?st1
     \<and> (onUpdateEvent ?st1 ?ev = Inr st' \<longrightarrow> (\<exists>es. live st' = live ?st @ es))
     \<and> (trim (lit ''next'') \<noteq> []
          \<longrightarrow> live (fst (handleSubmit ?st1 [] 7 (lit ''next'') (lit ''low'') (lit ''m''))) = [])"
    by (rule archive_keeps_live_timeline [OF reachable_finalized]) (simp_all add: lit_def)
  with l h e show ?thesis
    unfolding Let_def by auto
qed

text \<open>
  C8. In every reachable state and for every archived message id, the array
  stored under the id is not the array of the live timeline: overwriting the live
  array in place leaves the archived timeline as it was, and so do the handler's
  own changes of the live timeline, the append of \<open>onUpdateEvent\<close> and the reset of
  \<open>handleSubmit\<close>.
\<close>

theorem archived_copy_is_not_an_alias:
  assumes "reachable st" and "historicalActivities st i = Some a"
  shows "a \<noteq> processedEventsTimeline st
     \<and> archived (st\<lparr>heap := (heap st)(processedEventsTimeline st := xs)\<rparr>) i = archived st i
     \<and> (onUpdateEvent st ev = Inr st' \<longrightarrow> archived st' i = archived st i)
     \<and> archived (fst (handleSubmit st tm now inp effort model)) i = archived st i"
proof -
  from assms(1) have "wf_state st" by (rule reachable_wf)
  with assms(2) have lt: "a < next_addr st" and ne: "a \<noteq> processedEventsTimeline st"
    by (auto simp add: wf_state_def)
  have m: "archived (st\<lparr>heap := (heap st)(processedEventsTimeline st := xs)\<rparr>) i = archived st i"
    using assms(2) ne by (simp add: archived_def)
  have e: "archived st' i = archived st i" if "onUpdateEvent st ev = Inr st'"
    using that
  proof (cases rule: onUpdateEvent_cases)
    case (none fin)
    then show ?thesis by (simp add: archived_def)
  next
    case (some p fin)
    with assms(2) lt show ?thesis by (simp add: archived_def)
  qed
  have s: "archived (fst (handleSubmit st tm now inp effort model)) i = archived st i"
    using assms(2) lt
    by (simp add: handleSubmit_def alloc_array_def archived_def Let_def split: prod.splits)
  show ?thesis using ne m e s by simp
qed

theorem archived_copy_is_not_an_alias_witness:
  "let st = archiveEffect
              (init_state\<lparr>heap := (heap init_state)(1 := [finalize_answer_branch]),
                 next_addr := 2, processedEventsTimeline := 1,
                 hasFinalizeEventOccurredRef := True\<rparr>) False
              [\<lparr>msg_type = lit ''ai'', msg_content = JStr (lit ''done''), msg_id = Some (lit ''m1'')\<rparr>]
   in historicalActivities st (lit ''m1'') = Some 2
    \<and> processedEventsTimeline st = 1
    \<and> archived st (lit ''m1'') = Some [finalize_answer_branch]
    \<and> archived (st\<lparr>heap := (heap st)(processedEventsTimeline st := [])\<rparr>) (lit ''m1'')
        = Some [finalize_answer_branch]
    \<and> (\<exists>st'. onUpdateEvent st (JObj [(lit ''guardrail_block'', JBool True)]) = Inr st'
          \<and> archived st' (lit ''m1'') = Some [finalize_answer_branch])
    \<and> archived (fst (handleSubmit st [] 7 (lit ''next'') (lit ''low'') (lit ''m''))) (lit ''m1'')
        = Some [finalize_answer_branch]"
proof -
  let ?st0 = "init_state\<lparr>heap := (heap init_state)(1 := [finalize_answer_branch]),
              next_addr := 2, processedEventsTimeline := 1,
              hasFinalizeEventOccurredRef := True\<rparr>"
  let ?msgs = "[\<lparr>msg_type = lit ''ai'', msg_content = JStr (lit ''done''), msg_id = Some (lit ''m1'')\<rparr>]"
  let ?st = "archiveEffect ?st0 False ?msgs"
  let ?ev = "JObj [(lit ''guardrail_block'', JBool True)]"
  have r: "reachable ?st"
    using reachable_finalized by (rule reachable.effect)
  have a: "historicalActivities ?st (lit ''m1'') = Some 2"
    by (simp add: archiveEffect_def alloc_array_def lit_def)
  have t: "processedEventsTimeline ?st = 1"
    by (simp add: archiveEffect_def alloc_array_def lit_def)
  have c: "archived ?st (lit ''m1'') = Some [finalize_answer_branch]"
    by (simp add: archiveEffect_def alloc_array_def archived_def lit_def)
  obtain st' where e: "onUpdateEvent ?st ?ev = Inr st'"
    using guardrail_block_event by blast
  have "2 \<noteq> processedEventsTimeline ?st
     \<and> archived (?st\<lparr>heap := (heap ?st)(processedEventsTimeline ?st := [])\<rparr>) (lit ''m1'')
         = archived ?st (lit ''m1'')
     \<and> (onUpdateEvent ?st ?ev = Inr st' \<longrightarrow> archived st' (lit ''m1'') = archived ?st (lit ''m1''))
     \<and> archived (fst (handleSubmit ?st [] 7 (lit ''next'') (lit ''low'') (lit ''m''))) (lit ''m1'')
         = archived ?st (lit ''m1'')"
    using r a by (rule archived_copy_is_not_an_alias)
  with a t c e show ?thesis
    unfolding Let_def by auto
qed

text \<open>
  C9. A submission with a non-blank input hands \<open>thread.submit\<close> the counts (1, 1) for
  the effort "low", (3, 3) for "medium" and (5, 10) for "high", as
  (\<open>initial_search_query_count\<close>, \<open>max_research_loops\<close>).
\<close>

theorem effort_levels_parameters:
  assumes "trim inp \<noteq> []"
  shows "map_option (\<lambda>p. (initial_search_query_count p, max_research_loops p))
           (snd (handleSubmit st tm now inp (lit ''low'') model)) = Some (1, 1)
     \<and> map_option (\<lambda>p. (initial_search_query_count p, max_research_loops p))
           (snd (handleSubmit st tm now inp (lit ''medium'') model)) = Some (3, 3)
     \<and> map_option (\<lambda>p. (initial_search_query_count p, max_research_loops p))
           (snd (handleSubmit st tm now inp (lit ''high'') model)) = Some (5, 10)"
  using assms
  by (simp add: handleSubmit_def effort_switch_def alloc_array_def Let_def lit_def)

theorem effort_levels_parameters_witness:
  "map_option (\<lambda>p. (initial_search_query_count p, max_research_loops p))
           (snd (handleSubmit init_state [] 7 (lit ''hi'') (lit ''low'') (lit ''m''))) = Some (1, 1)
     \<and> map_option (\<lambda>p. (initial_search_query_count p, max_research_loops p))
           (snd (handleSubmit init_state [] 7 (lit ''hi'') (lit ''medium'') (lit ''m''))) = Some (3, 3)
     \<and> map_option (\<lambda>p. (initial_search_query_count p, max_research_loops p))
           (snd (handleSubmit init_state [] 7 (lit ''hi'') (lit ''high'') (lit ''m''))) = Some (5, 10)"
proof -
  have h: "trim (lit ''hi'') \<noteq> []"
    by (simp add: trim_def lit_def js_whitespace_def)
  show ?thesis using effort_levels_parameters [OF h] .
qed

text \<open>
  C10. A submission with a non-blank input and an effort other than "low", "medium"
  and "high" still calls \<open>thread.submit\<close>, with both counts 0, the thread's messages
  followed by the new human message, and the model passed through.
\<close>

theorem unknown_effort_parameters:
  assumes "trim inp \<noteq> []"
    and "effort \<noteq> lit ''low''" and "effort \<noteq> lit ''medium''" and "effort \<noteq> lit ''high''"
  shows "\<exists>p. snd (handleSubmit st tm now inp effort model) = Some p
     \<and> initial_search_query_count p = 0 \<and> max_research_loops p = 0
     \<and> messages p = tm @ [\<lparr>msg_type = lit ''human'', msg_content = JStr inp,
                             msg_id = Some (show_int now)\<rparr>]
     \<and> reasoning_model p = model"
  using assms
  by (simp add: handleSubmit_def effort_switch_def alloc_array_def Let_def)

theorem unknown_effort_parameters_witness:
  "\<exists>p. snd (handleSubmit init_state [] 7 (lit ''hi'') (lit ''extreme'') (lit ''m'')) = Some p
     \<and> initial_search_query_count p = 0 \<and> max_research_loops p = 0
     \<and> messages p = [] @ [\<lparr>msg_type = lit ''human'', msg_content = JStr (lit ''hi''),
                             msg_id = Some (show_int 7)\<rparr>]
     \<and> reasoning_model p = lit ''m''"
proof -
  have h: "trim (lit ''hi'') \<noteq> []"
    by (simp add: trim_def lit_def js_whitespace_def)
  have e: "lit ''extreme'' \<noteq> lit ''low''" "lit ''extreme'' \<noteq> lit ''medium''"
    "lit ''extreme'' \<noteq> lit ''high''"
    by (simp_all add: lit_def)
  show ?thesis using unknown_effort_parameters [OF h e] .
qed

end
